theory Spec2Isabelle
  imports Main
begin

section \<open>Values exchanged with the browser and the backend\<close>

text \<open>
  A \<^verbatim>\<open>Blob\<close> is its sequence of bytes; \<^verbatim>\<open>blob.size\<close> is the length, and
  \<^verbatim>\<open>new Blob(parts)\<close> is the concatenation of the parts in order.
  \<^verbatim>\<open>Date.now()\<close> is an integer number of milliseconds.
\<close>

type_synonym blob = "nat list"

datatype error =
    FetchFailed
  | HttpError nat
  | JsonSyntaxError
  | NoActiveRecording
  | FailedToStartOnBackend
  | ThisUndefined
  | PermissionDenied
  | InvalidStateError

text \<open>
  What \<^verbatim>\<open>fetch\<close> does for one request: it rejects (backend unreachable), or it
  resolves with a status code and a body that parses as JSON (\<open>Some\<close>) or does not.
\<close>

datatype 'a fetch_result = FetchRejects | FetchResponse nat "'a option"

definition response_ok :: "nat \<Rightarrow> bool" where
  "response_ok st = (200 \<le> st \<and> st \<le> 299)"

record RecordingResponse =
  success :: bool
  recording_id :: "string option"
  transcription_enabled :: bool
  transcription :: "string list"

record health =
  status :: string
  service :: string

record chunk_request =
  rq_recording_id :: "string option"
  rq_audio_data :: blob
  rq_detected_speech :: string
  rq_chunk_count :: nat

record pending_read =
  rd_blob :: blob
  rd_trigger :: string

text \<open>
  The calls the service makes on the browser, in the order it makes them. Of the console
  only \<^verbatim>\<open>console.error\<close> is recorded, with the fixed text of the message.
\<close>

datatype action =
    ConsoleError string
  | FetchRecordingStart
  | FetchRecordingChunk chunk_request
  | FetchRecordingStop "string option"
  | GetUserMedia
  | SpeechRecognitionStart
  | SpeechRecognitionStop
  | MediaRecorderStart nat
  | MediaRecorderStop
  | TracksStop
  | SetProcessingInterval nat
  | ClearProcessingInterval
  | SetTranscriptionInterval nat
  | ClearTranscriptionInterval
  | ReadAsDataURL blob

section \<open>The service object\<close>

text \<open>
  The fields of \<^verbatim>\<open>class BackendService\<close>. An object reference that is either null or
  set (\<^verbatim>\<open>mediaRecorder\<close>, \<^verbatim>\<open>speechRecognition\<close>, the two interval handles) is a
  boolean: \<open>True\<close> when set.
\<close>

record BackendService =
  mediaRecorder :: bool
  audioChunks :: "blob list"
  currentRecordingId :: "string option"
  transcriptionInterval :: bool
  speechRecognition :: bool
  isListening :: bool
  audioQueue :: "blob list"
  processingInterval :: bool
  accumulatedAudio :: "blob list"
  lastProcessTime :: int
  phraseTimeout :: int

definition initial_service :: BackendService where
  "initial_service =
     \<lparr>mediaRecorder = False, audioChunks = [], currentRecordingId = None,
      transcriptionInterval = False, speechRecognition = False, isListening = False,
      audioQueue = [], processingInterval = False, accumulatedAudio = [],
      lastProcessTime = 0, phraseTimeout = 3000\<rparr>"

text \<open>
  The service together with what the browser holds for it: the \<^verbatim>\<open>FileReader\<close> reads
  that have been started and have not finished, the chunk uploads that have been sent and
  have no response yet, and the calls made so far.
\<close>

record world =
  svc :: BackendService
  readers :: "pending_read list"
  inflight :: "chunk_request list"
  calls :: "action list"

definition initial_world :: world where
  "initial_world = \<lparr>svc = initial_service, readers = [], inflight = [], calls = []\<rparr>"

text \<open>JavaScript truthiness of a \<^verbatim>\<open>string | null\<close>: null and the empty string are falsy.\<close>

definition truthy :: "string option \<Rightarrow> bool" where
  "truthy v = (case v of None \<Rightarrow> False | Some s \<Rightarrow> s \<noteq> [])"

definition emit :: "action list \<Rightarrow> world \<Rightarrow> world" where
  "emit as w = w\<lparr>calls := calls w @ as\<rparr>"

section \<open>makeRequest\<close>

text \<open>
  The settling of \<^verbatim>\<open>makeRequest\<close>: the value the promise resolves with or the error it
  rejects with, and the \<^verbatim>\<open>console.error\<close> of its catch block.
\<close>

definition makeRequest :: "'a fetch_result \<Rightarrow> action list \<times> (error + 'a)" where
  "makeRequest r =
     (case r of
        FetchRejects \<Rightarrow> ([ConsoleError ''API request failed''], Inl FetchFailed)
      | FetchResponse st body \<Rightarrow>
          if \<not> response_ok st
          then ([ConsoleError ''API request failed''], Inl (HttpError st))
          else (case body of
                  None \<Rightarrow> ([ConsoleError ''API request failed''], Inl JsonSyntaxError)
                | Some j \<Rightarrow> ([], Inr j)))"

section \<open>sendAccumulatedAudio and its completion callbacks\<close>

text \<open>
  The synchronous part of \<^verbatim>\<open>sendAccumulatedAudio\<close>: the guard, the combined blob and
  the start of the read. Nothing is awaited before the function returns.
\<close>

definition sendAccumulatedAudio :: "string \<Rightarrow> world \<Rightarrow> world" where
  "sendAccumulatedAudio trigger w =
     (if accumulatedAudio (svc w) = [] \<or> \<not> truthy (currentRecordingId (svc w)) then w
      else
        let combinedBlob = concat (accumulatedAudio (svc w))
        in w\<lparr>readers := readers w @ [\<lparr>rd_blob = combinedBlob, rd_trigger = trigger\<rparr>],
              calls := calls w @ [ReadAsDataURL combinedBlob]\<rparr>)"

text \<open>
  \<^verbatim>\<open>reader.onloadend\<close> up to the await of the upload: the request body is built from the
  blob read and from the fields of the service as they are when the read finishes.
  \<open>rq_audio_data\<close> holds the bytes whose base64 text the request carries.
\<close>

definition onloadend :: "pending_read \<Rightarrow> world \<Rightarrow> world" where
  "onloadend r w =
     (let req = \<lparr>rq_recording_id = currentRecordingId (svc w),
                 rq_audio_data = rd_blob r,
                 rq_detected_speech = rd_trigger r,
                 rq_chunk_count = length (accumulatedAudio (svc w))\<rparr>
      in w\<lparr>inflight := inflight w @ [req],
            calls := calls w @ [FetchRecordingChunk req]\<rparr>)"

text \<open>The rest of \<^verbatim>\<open>reader.onloadend\<close>, once the upload has settled.\<close>

definition upload_settled :: "'a fetch_result \<Rightarrow> world \<Rightarrow> world" where
  "upload_settled reply w =
     (case makeRequest reply of
        (_, Inr response) \<Rightarrow> w\<lparr>svc := (svc w)\<lparr>accumulatedAudio := []\<rparr>\<rparr>
      | (logged, Inl e) \<Rightarrow>
          emit (logged @ [ConsoleError ''Failed to upload accumulated audio'']) w)"

section \<open>The capture and recognition callbacks\<close>

definition ondataavailable :: "blob \<Rightarrow> world \<Rightarrow> world" where
  "ondataavailable data w =
     (if length data > 0
      then w\<lparr>svc := (svc w)\<lparr>audioQueue := audioQueue (svc w) @ [data],
                             audioChunks := audioChunks (svc w) @ [data]\<rparr>\<rparr>
      else w)"

text \<open>
  \<^verbatim>\<open>String.prototype.trim\<close> removes white space at both ends, so the trimmed string is
  truthy exactly when some character is not white space. A \<open>char\<close> is one code unit below
  256; the white space there is TAB, LF, VT, FF, CR, SPACE and NBSP.
\<close>

definition js_whitespace :: "char \<Rightarrow> bool" where
  "js_whitespace c = (of_char c \<in> set [9, 10, 11, 12, 13, 32, 160 :: nat])"

definition trim_truthy :: "string \<Rightarrow> bool" where
  "trim_truthy s = (filter (\<lambda>c. \<not> js_whitespace c) s \<noteq> [])"

text \<open>
  \<^verbatim>\<open>speechRecognition.onresult\<close>: a result is its \<^verbatim>\<open>isFinal\<close> flag and the transcript
  of its first alternative.
\<close>

definition finalTranscript :: "(bool \<times> string) list \<Rightarrow> string" where
  "finalTranscript results = concat (map snd (filter fst results))"

definition onresult :: "(bool \<times> string) list \<Rightarrow> world \<Rightarrow> world" where
  "onresult results w =
     (if trim_truthy (finalTranscript results)
      then sendAccumulatedAudio (finalTranscript results) w
      else w)"

section \<open>The processing loop\<close>

text \<open>
  One run of the interval callback of \<^verbatim>\<open>startContinuousProcessing\<close>, with
  \<^verbatim>\<open>Date.now()\<close> passed in. The awaited \<^verbatim>\<open>sendAccumulatedAudio\<close> has no suspension
  point of its own, so the callback runs to its end before any other callback.
\<close>

definition processing_tick :: "int \<Rightarrow> world \<Rightarrow> world" where
  "processing_tick now w =
     (if length (audioQueue (svc w)) > 0 then
        let allQueuedChunks = audioQueue (svc w);
            w1 = w\<lparr>svc := (svc w)\<lparr>audioQueue := [],
                     accumulatedAudio := accumulatedAudio (svc w) @ allQueuedChunks\<rparr>\<rparr>;
            timeSinceLastProcess = now - lastProcessTime (svc w1);
            w2 = (if timeSinceLastProcess > phraseTimeout (svc w1)
                  then sendAccumulatedAudio ''phrase_timeout'' w1 else w1)
        in w2\<lparr>svc := (svc w2)\<lparr>lastProcessTime := now\<rparr>\<rparr>
      else
        let timeSinceLastProcess = now - lastProcessTime (svc w)
        in if length (accumulatedAudio (svc w)) > 0
              \<and> timeSinceLastProcess > phraseTimeout (svc w)
           then sendAccumulatedAudio ''idle_timeout'' w
           else w)"

definition stopContinuousProcessing :: "world \<Rightarrow> world" where
  "stopContinuousProcessing w =
     (if processingInterval (svc w)
      then (emit [ClearProcessingInterval] w)\<lparr>svc := (svc w)\<lparr>processingInterval := False\<rparr>\<rparr>
      else w)"

definition stopTranscriptionPolling :: "world \<Rightarrow> world" where
  "stopTranscriptionPolling w =
     (if transcriptionInterval (svc w)
      then (emit [ClearTranscriptionInterval] w)\<lparr>svc := (svc w)\<lparr>transcriptionInterval := False\<rparr>\<rparr>
      else w)"

section \<open>Events and runs\<close>

text \<open>
  The callbacks the browser can deliver while a session is open, one at a time. The
  interval callback is delivered only while the interval is set. \<open>ReaderLoaded i\<close>
  finishes the \<open>i\<close>-th pending read and \<open>UploadSettled i reply\<close> settles the \<open>i\<close>-th upload
  in flight, so reads and uploads may finish in any order.
\<close>

datatype event =
    DataAvailable blob
  | Tick int
  | SpeechResult "(bool \<times> string) list"
  | ReaderLoaded nat
  | UploadSettled nat "unit fetch_result"

definition remove_nth :: "nat \<Rightarrow> 'a list \<Rightarrow> 'a list" where
  "remove_nth i xs = take i xs @ drop (Suc i) xs"

fun step :: "event \<Rightarrow> world \<Rightarrow> world" where
  "step (DataAvailable data) w = ondataavailable data w"
| "step (Tick now) w = (if processingInterval (svc w) then processing_tick now w else w)"
| "step (SpeechResult results) w = onresult results w"
| "step (ReaderLoaded i) w =
     (if i < length (readers w)
      then onloadend (readers w ! i) (w\<lparr>readers := remove_nth i (readers w)\<rparr>)
      else w)"
| "step (UploadSettled i reply) w =
     (if i < length (inflight w)
      then upload_settled reply (w\<lparr>inflight := remove_nth i (inflight w)\<rparr>)
      else w)"

fun run :: "event list \<Rightarrow> world \<Rightarrow> world" where
  "run [] w = w"
| "run (e # es) w = run es (step e w)"

section \<open>startRecording\<close>

text \<open>
  What the environment does during one \<^verbatim>\<open>startRecording\<close>: the backend's answer to
  \<^verbatim>\<open>/recording/start\<close>, the caller's \<^verbatim>\<open>enableTranscription\<close>, whether
  \<^verbatim>\<open>getUserMedia\<close> resolves, whether the page has a speech recognition constructor
  and whether its \<^verbatim>\<open>start()\<close> throws. The \<^verbatim>\<open>MediaRecorder\<close> constructor and its
  \<^verbatim>\<open>start\<close> are taken to succeed.
\<close>

record start_env =
  start_reply :: "RecordingResponse fetch_result"
  enableTranscription :: bool
  microphone_granted :: bool
  speech_api_available :: bool
  speech_start_throws :: bool

definition startTranscriptionPolling :: "world \<Rightarrow> world" where
  "startTranscriptionPolling w =
     (if \<not> truthy (currentRecordingId (svc w)) then w
      else (emit [SetTranscriptionInterval 1000] w)
             \<lparr>svc := (svc w)\<lparr>transcriptionInterval := True\<rparr>\<rparr>)"

definition setupSpeechRecognition :: "start_env \<Rightarrow> world \<Rightarrow> world" where
  "setupSpeechRecognition env w =
     (if \<not> speech_api_available env then w
      else
        let w1 = (emit [SpeechRecognitionStart] w)\<lparr>svc := (svc w)\<lparr>speechRecognition := True\<rparr>\<rparr>
        in if speech_start_throws env
           then emit [ConsoleError ''Failed to setup speech recognition''] w1
           else w1)"

definition startContinuousProcessing :: "world \<Rightarrow> world" where
  "startContinuousProcessing w =
     (emit [SetProcessingInterval 250] w)\<lparr>svc := (svc w)\<lparr>processingInterval := True\<rparr>\<rparr>"

text \<open>
  \<^verbatim>\<open>startRecording\<close>, with the value of \<^verbatim>\<open>Date.now()\<close> at the assignment of
  \<^verbatim>\<open>lastProcessTime\<close> passed in. No callback of an earlier session is delivered
  between its awaits.
\<close>

definition startRecording ::
  "start_env \<Rightarrow> int \<Rightarrow> world \<Rightarrow> (error + RecordingResponse) \<times> world" where
  "startRecording env now w =
     (let w0 = emit [FetchRecordingStart] w in
      case makeRequest (start_reply env) of
        (logged, Inl e) \<Rightarrow> (Inl e, emit (logged @ [ConsoleError ''Failed to start recording'']) w0)
      | (_, Inr startResponse) \<Rightarrow>
          if success startResponse \<and> truthy (recording_id startResponse) then
            let w1 = w0\<lparr>svc := (svc w0)\<lparr>currentRecordingId := recording_id startResponse,
                                          audioChunks := [],
                                          audioQueue := [],
                                          accumulatedAudio := [],
                                          lastProcessTime := now\<rparr>\<rparr>;
                w2 = (if enableTranscription env \<and> transcription_enabled startResponse
                      then startTranscriptionPolling w1 else w1);
                w3 = emit [GetUserMedia] w2
            in if \<not> microphone_granted env
               then (Inl PermissionDenied, emit [ConsoleError ''Failed to start recording''] w3)
               else
                 let w4 = setupSpeechRecognition env w3;
                     w5 = (emit [MediaRecorderStart 250] w4)\<lparr>svc := (svc w4)\<lparr>mediaRecorder := True\<rparr>\<rparr>;
                     w6 = startContinuousProcessing w5
                 in (Inr startResponse, w6)
          else (Inl FailedToStartOnBackend, emit [ConsoleError ''Failed to start recording''] w0))"

section \<open>stopRecording\<close>

text \<open>
  What the environment does during one \<^verbatim>\<open>stopRecording\<close>: whether
  \<^verbatim>\<open>speechRecognition.stop()\<close> throws and whether \<^verbatim>\<open>mediaRecorder.stop()\<close> throws.
\<close>

record stop_env =
  speech_stop_throws :: bool
  recorder_stop_throws :: bool

text \<open>
  \<^verbatim>\<open>stopRecording\<close> up to its await of \<^verbatim>\<open>/recording/stop\<close>. The result is the error
  the promise rejects with, or \<open>None\<close> when the stop request has been sent. The inner
  try block around \<^verbatim>\<open>speechRecognition.stop()\<close> ends the same way whether the call
  throws or not (the two branches differ in a \<^verbatim>\<open>console.log\<close> only).
\<close>

definition stopRecording_begin :: "stop_env \<Rightarrow> world \<Rightarrow> error option \<times> world" where
  "stopRecording_begin env w =
     (if \<not> mediaRecorder (svc w) \<or> \<not> truthy (currentRecordingId (svc w))
      then (Some NoActiveRecording, emit [ConsoleError ''Failed to stop recording''] w)
      else
        let w1 = stopContinuousProcessing w;
            w2 = (if speechRecognition (svc w1)
                  then
                    let w' = (emit [SpeechRecognitionStop] w1)\<lparr>svc := (svc w1)\<lparr>isListening := False\<rparr>\<rparr>
                    in if speech_stop_throws env then w' else w'
                  else w1);
            w3 = (if length (accumulatedAudio (svc w2)) > 0
                  then sendAccumulatedAudio ''Final chunk'' w2 else w2);
            w4 = stopTranscriptionPolling w3;
            w5 = emit [MediaRecorderStop] w4
        in if recorder_stop_throws env
           then (Some InvalidStateError, emit [ConsoleError ''Failed to stop recording''] w5)
           else (None, emit [TracksStop, FetchRecordingStop (currentRecordingId (svc w5))] w5))"

text \<open>The rest of \<^verbatim>\<open>stopRecording\<close>, once \<^verbatim>\<open>/recording/stop\<close> has settled.\<close>

definition stopRecording_finish ::
  "RecordingResponse fetch_result \<Rightarrow> world \<Rightarrow> (error + RecordingResponse) \<times> world" where
  "stopRecording_finish reply w =
     (case makeRequest reply of
        (logged, Inl e) \<Rightarrow> (Inl e, emit (logged @ [ConsoleError ''Failed to stop recording'']) w)
      | (_, Inr stopResponse) \<Rightarrow>
          (Inr stopResponse,
           w\<lparr>svc := (svc w)\<lparr>mediaRecorder := False,
                             currentRecordingId := None,
                             audioQueue := [],
                             accumulatedAudio := [],
                             speechRecognition := False\<rparr>\<rparr>))"

text \<open>
  A whole \<^verbatim>\<open>stopRecording\<close>, with the callbacks \<open>es\<close> delivered while the stop request
  is awaited.
\<close>

definition stopRecording ::
  "stop_env \<Rightarrow> event list \<Rightarrow> RecordingResponse fetch_result \<Rightarrow> world
     \<Rightarrow> (error + RecordingResponse) \<times> world" where
  "stopRecording env es reply w =
     (case stopRecording_begin env w of
        (Some e, w') \<Rightarrow> (Inl e, w')
      | (None, w') \<Rightarrow> stopRecording_finish reply (run es w'))"

section \<open>healthCheck and its caller\<close>

definition fabricated_health :: health where
  "fabricated_health = \<lparr>status = ''connected'', service = ''audio-backend''\<rparr>"

text \<open>
  \<^verbatim>\<open>healthCheck\<close>: the delay in milliseconds its own timer adds and the way its promise
  settles. \<open>this_bound\<close> says whether the method is called on the service; the hook
  \<^verbatim>\<open>useBackend\<close> hands out \<^verbatim>\<open>backendService.healthCheck\<close> detached, and then reading
  \<^verbatim>\<open>this.makeRequest\<close> throws inside the try block.
\<close>

definition healthCheck :: "bool \<Rightarrow> health fetch_result \<Rightarrow> nat \<times> (error + health)" where
  "healthCheck this_bound reply =
     (case (if this_bound then snd (makeRequest reply) else Inl ThisUndefined) of
        Inr response \<Rightarrow> (0, Inr response)
      | Inl e \<Rightarrow> (500, Inr fabricated_health))"

definition useBackend_healthCheck :: "health fetch_result \<Rightarrow> nat \<times> (error + health)" where
  "useBackend_healthCheck reply = healthCheck False reply"

datatype backend_status = Connecting | Connected | BackendError

text \<open>\<^verbatim>\<open>checkBackend\<close> of the sidebar: the status it sets after awaiting the health check.\<close>

definition checkBackend :: "health fetch_result \<Rightarrow> backend_status" where
  "checkBackend reply =
     (case snd (useBackend_healthCheck reply) of
        Inr _ \<Rightarrow> Connected
      | Inl _ \<Rightarrow> BackendError)"

section \<open>Runs of a session and what is read off them\<close>

text \<open>
  The fragments a run delivers, in arrival order: the data of its \<open>DataAvailable\<close>
  events, without the empty blobs that \<^verbatim>\<open>ondataavailable\<close> drops.
\<close>

fun arrived :: "event list \<Rightarrow> blob list" where
  "arrived [] = []"
| "arrived (DataAvailable data # es) = (if length data > 0 then [data] else []) @ arrived es"
| "arrived (e # es) = arrived es"

text \<open>An event that settles an upload with success, the only one that empties the buffer.\<close>

fun upload_succeeds :: "event \<Rightarrow> bool" where
  "upload_succeeds (UploadSettled i reply) = (case snd (makeRequest reply) of Inr _ \<Rightarrow> True | Inl _ \<Rightarrow> False)"
| "upload_succeeds e = False"

text \<open>The chunk uploads among the calls made, in order.\<close>

fun uploads :: "action list \<Rightarrow> chunk_request list" where
  "uploads [] = []"
| "uploads (FetchRecordingChunk req # as) = req # uploads as"
| "uploads (a # as) = uploads as"

text \<open>
  Capture and processing in step: each fragment is delivered and then drained by a tick
  at the given time.
\<close>

fun feed :: "(blob \<times> int) list \<Rightarrow> world \<Rightarrow> world" where
  "feed [] w = w"
| "feed ((data, now) # ps) w = feed ps (step (Tick now) (step (DataAvailable data) w))"

text \<open>No two successive times, starting from \<open>t0\<close>, are more than \<open>timeout\<close> apart.\<close>

fun steady :: "int \<Rightarrow> int \<Rightarrow> int list \<Rightarrow> bool" where
  "steady timeout t0 [] = True"
| "steady timeout t0 (t # ts) = (\<not> t - t0 > timeout \<and> steady timeout t ts)"

text \<open>
  A session opened at time 0 by a backend that accepts the recording, with the
  microphone granted and speech recognition available.
\<close>

definition accepting_env :: start_env where
  "accepting_env =
     \<lparr>start_reply = FetchResponse 200
        (Some \<lparr>success = True, recording_id = Some ''rec-1'',
               transcription_enabled = False, transcription = []\<rparr>),
      enableTranscription = True, microphone_granted = True,
      speech_api_available = True, speech_start_throws = False\<rparr>"

definition started_world :: world where
  "started_world = snd (startRecording accepting_env 0 initial_world)"

definition stop_reply_ok :: "RecordingResponse fetch_result" where
  "stop_reply_ok =
     FetchResponse 200
       (Some \<lparr>success = True, recording_id = Some ''rec-1'',
              transcription_enabled = False, transcription = []\<rparr>)"

text \<open>
  The first \<open>n\<close> fragments of a capture that delivers one fragment every 250 ms, each
  drained by the tick at its arrival time; the \<open>k\<close>-th fragment is the single byte \<open>k\<close>.
\<close>

definition fragments_every_250ms :: "nat \<Rightarrow> (blob \<times> int) list" where
  "fragments_every_250ms n = map (\<lambda>k. ([k], 250 * int k)) [1..<Suc n]"

section \<open>Basic facts\<close>

lemmas handler_defs =
  sendAccumulatedAudio_def onloadend_def upload_settled_def ondataavailable_def
  onresult_def processing_tick_def makeRequest_def response_ok_def truthy_def emit_def
  remove_nth_def finalTranscript_def trim_truthy_def js_whitespace_def

lemmas session_defs =
  startRecording_def startTranscriptionPolling_def setupSpeechRecognition_def
  startContinuousProcessing_def stopRecording_begin_def stopRecording_finish_def
  stopRecording_def stopContinuousProcessing_def stopTranscriptionPolling_def

lemma started_world_value:
  "started_world =
     \<lparr>svc = \<lparr>mediaRecorder = True, audioChunks = [], currentRecordingId = Some ''rec-1'',
             transcriptionInterval = False, speechRecognition = True, isListening = False,
             audioQueue = [], processingInterval = True, accumulatedAudio = [],
             lastProcessTime = 0, phraseTimeout = 3000\<rparr>,
      readers = [], inflight = [],
      calls = [FetchRecordingStart, GetUserMedia, SpeechRecognitionStart,
               MediaRecorderStart 250, SetProcessingInterval 250]\<rparr>"
  by (simp add: started_world_def accepting_env_def initial_world_def initial_service_def
      session_defs handler_defs)

lemma svc_sendAccumulatedAudio [simp]: "svc (sendAccumulatedAudio trigger w) = svc w"
  by (simp add: sendAccumulatedAudio_def Let_def)

lemma sendAccumulatedAudio_empty:
  "accumulatedAudio (svc w) = [] \<Longrightarrow> sendAccumulatedAudio trigger w = w"
  by (simp add: sendAccumulatedAudio_def)

lemma sendAccumulatedAudio_starts_read:
  "accumulatedAudio (svc w) \<noteq> [] \<Longrightarrow> truthy (currentRecordingId (svc w)) \<Longrightarrow>
   sendAccumulatedAudio trigger w =
     w\<lparr>readers := readers w @ [\<lparr>rd_blob = concat (accumulatedAudio (svc w)), rd_trigger = trigger\<rparr>],
       calls := calls w @ [ReadAsDataURL (concat (accumulatedAudio (svc w)))]\<rparr>"
  by (simp add: sendAccumulatedAudio_def Let_def)

section \<open>Flushing an empty buffer\<close>

text \<open>
  Claim C4. A flush of an empty accumulation buffer does nothing: the service, the pending
  reads, the uploads in flight and the calls made are all unchanged, so no upload call is
  made. This holds in every state of the session and for any number of repeated flushes;
  the speech-boundary callback leaves the world unchanged as well, and so does a tick
  that finds the capture queue empty.
\<close>

theorem flush_on_empty_buffer_is_noop:
  "accumulatedAudio (svc w) = [] \<Longrightarrow>
     sendAccumulatedAudio trigger w = w
     \<and> (sendAccumulatedAudio trigger ^^ n) w = w
     \<and> onresult results w = w
     \<and> (audioQueue (svc w) = [] \<longrightarrow> processing_tick now w = w)"
proof -
  assume e: "accumulatedAudio (svc w) = []"
  have one: "sendAccumulatedAudio t w = w" for t
    using e by (rule sendAccumulatedAudio_empty)
  have many: "(sendAccumulatedAudio trigger ^^ n) w = w"
    by (induction n) (simp_all add: one)
  have speech: "onresult results w = w"
    by (simp add: onresult_def one)
  have tick: "audioQueue (svc w) = [] \<longrightarrow> processing_tick now w = w"
    using e by (simp add: processing_tick_def)
  from one many speech tick show ?thesis by blast
qed

theorem flush_on_empty_buffer_is_noop_witness:
  "accumulatedAudio (svc started_world) = []
   \<and> sendAccumulatedAudio ''idle_timeout'' started_world = started_world
   \<and> (sendAccumulatedAudio ''idle_timeout'' ^^ 3) started_world = started_world
   \<and> onresult [(True, ''hello'')] started_world = started_world
   \<and> processing_tick 250 started_world = started_world"
  using flush_on_empty_buffer_is_noop [of started_world "''idle_timeout''" 3 "[(True, ''hello'')]" 250]
  by (simp add: started_world_value)

section \<open>What a flush sends\<close>

lemma arrived_Cons: "arrived (e # es) = arrived [e] @ arrived es"
  by (cases e) simp_all

lemma step_keeps_recording_id [simp]:
  "currentRecordingId (svc (step e w)) = currentRecordingId (svc w)"
  by (cases e) (auto simp: handler_defs Let_def split: prod.splits sum.splits)

lemma run_keeps_recording_id [simp]:
  "currentRecordingId (svc (run es w)) = currentRecordingId (svc w)"
  by (induction es arbitrary: w) simp_all

lemma step_keeps_pending_fragments:
  assumes "\<not> upload_succeeds e"
  shows "accumulatedAudio (svc (step e w)) @ audioQueue (svc (step e w))
           = accumulatedAudio (svc w) @ audioQueue (svc w) @ arrived [e]"
proof (cases e)
  case (DataAvailable d)
  then show ?thesis by (simp add: ondataavailable_def)
next
  case (Tick now)
  then show ?thesis by (simp add: processing_tick_def Let_def)
next
  case (SpeechResult rs)
  then show ?thesis by (simp add: onresult_def)
next
  case (ReaderLoaded i)
  then show ?thesis by (simp add: onloadend_def Let_def)
next
  case (UploadSettled i reply)
  with assms show ?thesis
    by (auto simp: upload_settled_def emit_def split: prod.splits sum.splits)
qed

lemma run_keeps_pending_fragments:
  "list_all (\<lambda>e. \<not> upload_succeeds e) es \<Longrightarrow>
   accumulatedAudio (svc (run es w)) @ audioQueue (svc (run es w))
     = accumulatedAudio (svc w) @ audioQueue (svc w) @ arrived es"
proof (induction es arbitrary: w)
  case Nil
  then show ?case by simp
next
  case (Cons e es)
  then have "accumulatedAudio (svc (run es (step e w))) @ audioQueue (svc (run es (step e w)))
     = accumulatedAudio (svc (step e w)) @ audioQueue (svc (step e w)) @ arrived es"
    by simp
  also have "\<dots> = (accumulatedAudio (svc w) @ audioQueue (svc w) @ arrived [e]) @ arrived es"
    using Cons.prems step_keeps_pending_fragments [of e w] by simp
  finally show ?case
    using arrived_Cons [of e es] by simp
qed

text \<open>
  Claim C1, as the code has it. The buffer is emptied when an upload succeeds, not when a
  flush starts. So take a run that begins with the buffer and the queue empty and in which
  no upload succeeds, with capture events, ticks, speech results, finished reads and
  failed uploads in any order. At its end the buffer followed by the queue is the sequence
  of fragments that arrived, in arrival order, each once; a flush sends the concatenation of
  the buffer; and after a tick the buffer is the whole sequence of arrivals.
\<close>

theorem flush_payload_is_arrivals_since_last_clear:
  assumes "list_all (\<lambda>e. \<not> upload_succeeds e) es"
    and "truthy (currentRecordingId (svc w))"
    and "accumulatedAudio (svc w) = []" and "audioQueue (svc w) = []"
  shows "accumulatedAudio (svc (run es w)) @ audioQueue (svc (run es w)) = arrived es
     \<and> (accumulatedAudio (svc (run es w)) \<noteq> [] \<longrightarrow>
          readers (sendAccumulatedAudio trigger (run es w))
            = readers (run es w)
              @ [\<lparr>rd_blob = concat (accumulatedAudio (svc (run es w))), rd_trigger = trigger\<rparr>])
     \<and> (processingInterval (svc (run es w)) \<longrightarrow>
          accumulatedAudio (svc (step (Tick now) (run es w))) = arrived es)"
proof -
  let ?w = "run es w"
  have pend: "accumulatedAudio (svc ?w) @ audioQueue (svc ?w) = arrived es"
    using assms(1,3,4) run_keeps_pending_fragments [of es w] by simp
  have flush: "accumulatedAudio (svc ?w) \<noteq> [] \<longrightarrow>
          readers (sendAccumulatedAudio trigger ?w)
            = readers ?w @ [\<lparr>rd_blob = concat (accumulatedAudio (svc ?w)), rd_trigger = trigger\<rparr>]"
    using assms(2) by (simp add: sendAccumulatedAudio_starts_read)
  have tick: "processingInterval (svc ?w) \<longrightarrow> accumulatedAudio (svc (step (Tick now) ?w)) = arrived es"
    using pend by (auto simp: processing_tick_def Let_def)
  from pend flush tick show ?thesis by blast
qed

theorem flush_payload_is_arrivals_since_last_clear_witness:
  "let es = [DataAvailable [1], Tick 250, SpeechResult [(True, ''one'')],
             ReaderLoaded 0, UploadSettled 0 FetchRejects, DataAvailable [2], Tick 500]
   in list_all (\<lambda>e. \<not> upload_succeeds e) es
      \<and> truthy (currentRecordingId (svc started_world))
      \<and> accumulatedAudio (svc started_world) = [] \<and> audioQueue (svc started_world) = []
      \<and> arrived es = [[1], [2]]
      \<and> accumulatedAudio (svc (run es started_world)) = [[1], [2]]
      \<and> readers (sendAccumulatedAudio ''two'' (run es started_world))
          = [\<lparr>rd_blob = [1, 2], rd_trigger = ''two''\<rparr>]"
  using flush_payload_is_arrivals_since_last_clear
    [of "[DataAvailable [1], Tick 250, SpeechResult [(True, ''one'')],
          ReaderLoaded 0, UploadSettled 0 FetchRejects, DataAvailable [2], Tick 500]"
        started_world "''two''" 750]
  by (simp add: started_world_value handler_defs Let_def)

text \<open>
  The claim as written fails: of two flushes with no successful upload between them, the
  second sends again what the first sent. Between the two flushes below only the fragment
  \<open>[2]\<close> arrives, and the second payload is \<open>[1, 2]\<close>.
\<close>

theorem overlapping_flushes_repeat_fragments:
  "let first = [DataAvailable [1], Tick 250, SpeechResult [(True, ''one'')]];
       second = [DataAvailable [2], Tick 500, SpeechResult [(True, ''two'')]]
   in map rd_blob (readers (run (first @ second) started_world)) = [[1], [1, 2]]
      \<and> concat (arrived second) = [2]
      \<and> rd_blob (last (readers (run (first @ second) started_world))) \<noteq> concat (arrived second)"
  by (simp add: started_world_value handler_defs Let_def)

text \<open>
  An upload that succeeds after further fragments were drained empties the buffer with them
  in it: the fragment \<open>[2]\<close> below is in no upload and in no buffer.
\<close>

lemma fragment_dropped_by_late_upload_success:
  "let w = run [DataAvailable [1], Tick 250, SpeechResult [(True, ''one'')], ReaderLoaded 0,
                DataAvailable [2], Tick 500, UploadSettled 0 (FetchResponse 200 (Some ()))]
               started_world
   in uploads (calls w) = [\<lparr>rq_recording_id = Some ''rec-1'', rq_audio_data = [1],
                            rq_detected_speech = ''one'', rq_chunk_count = 1\<rparr>]
      \<and> accumulatedAudio (svc w) = [] \<and> audioQueue (svc w) = []
      \<and> readers w = [] \<and> inflight w = []"
  by (simp add: started_world_value handler_defs Let_def)

section \<open>When the buffer is emptied\<close>

lemma step_buffer_whole:
  "accumulatedAudio (svc (step e w)) = []
   \<or> (\<exists>ys. accumulatedAudio (svc (step e w)) = accumulatedAudio (svc w) @ ys)"
proof (cases e)
  case (DataAvailable d)
  then show ?thesis by (simp add: ondataavailable_def)
next
  case (Tick now)
  then show ?thesis by (simp add: processing_tick_def Let_def)
next
  case (SpeechResult rs)
  then show ?thesis by (simp add: onresult_def)
next
  case (ReaderLoaded i)
  then show ?thesis by (simp add: onloadend_def Let_def)
next
  case (UploadSettled i reply)
  then show ?thesis
    by (auto simp: upload_settled_def emit_def split: prod.splits sum.splits)
qed

text \<open>
  Claim C3, as the code has it. A flush leaves the service, and so the buffer, as it was.
  The buffer is emptied, whole, when an upload settles with success; an upload that fails
  leaves the service unchanged. No event removes a part of the buffer: after any event the
  buffer is empty or is the old buffer with fragments appended.
\<close>

theorem buffer_emptied_by_successful_upload_only:
  "svc (sendAccumulatedAudio trigger w) = svc w
   \<and> (case snd (makeRequest reply) of
         Inr response \<Rightarrow> svc (upload_settled reply w) = (svc w)\<lparr>accumulatedAudio := []\<rparr>
       | Inl e \<Rightarrow> svc (upload_settled reply w) = svc w)
   \<and> (accumulatedAudio (svc (step ev w)) = []
        \<or> (\<exists>ys. accumulatedAudio (svc (step ev w)) = accumulatedAudio (svc w) @ ys))"
proof -
  have settle: "case snd (makeRequest reply) of
         Inr response \<Rightarrow> svc (upload_settled reply w) = (svc w)\<lparr>accumulatedAudio := []\<rparr>
       | Inl e \<Rightarrow> svc (upload_settled reply w) = svc w"
    by (auto simp: upload_settled_def emit_def split: prod.splits sum.splits)
  show ?thesis
    using settle step_buffer_whole [of ev w] by simp
qed

theorem buffer_emptied_by_successful_upload_only_witness:
  "let w = run [DataAvailable [1], DataAvailable [2], Tick 250] started_world
   in svc (sendAccumulatedAudio ''phrase_timeout'' w) = svc w
      \<and> accumulatedAudio (svc w) = [[1], [2]]
      \<and> accumulatedAudio (svc (upload_settled (FetchResponse 200 (Some ())) w)) = []
      \<and> accumulatedAudio (svc (upload_settled (FetchResponse 500 (Some ())) w)) = [[1], [2]]
      \<and> accumulatedAudio (svc (step (UploadSettled 0 (FetchResponse 200 (Some ()))) w)) = [[1], [2]]"
  using buffer_emptied_by_successful_upload_only
    [of "''phrase_timeout''" "run [DataAvailable [1], DataAvailable [2], Tick 250] started_world"
        "FetchResponse 200 (Some ())" "UploadSettled 0 (FetchResponse 200 (Some ()))"]
    buffer_emptied_by_successful_upload_only
    [of "''phrase_timeout''" "run [DataAvailable [1], DataAvailable [2], Tick 250] started_world"
        "FetchResponse 500 (Some ())" "UploadSettled 0 (FetchResponse 200 (Some ()))"]
  by (simp add: started_world_value handler_defs Let_def)

text \<open>
  The claim as written fails: after a flush attempt the buffer still holds its fragment,
  and it still does after the upload of that flush has failed.
\<close>

theorem buffer_kept_after_flush_attempt:
  "let w = run [DataAvailable [1], Tick 250] started_world;
       flushed = sendAccumulatedAudio ''phrase_timeout'' w;
       failed = run [ReaderLoaded 0, UploadSettled 0 FetchRejects] flushed
   in readers flushed = [\<lparr>rd_blob = [1], rd_trigger = ''phrase_timeout''\<rparr>]
      \<and> accumulatedAudio (svc flushed) = [[1]]
      \<and> uploads (calls failed) = [\<lparr>rq_recording_id = Some ''rec-1'', rq_audio_data = [1],
             rq_detected_speech = ''phrase_timeout'', rq_chunk_count = 1\<rparr>]
      \<and> inflight failed = []
      \<and> accumulatedAudio (svc failed) = [[1]]
      \<and> accumulatedAudio (svc failed) \<noteq> []"
  by (simp add: started_world_value handler_defs Let_def)

section \<open>The timeout test of a tick\<close>

text \<open>
  Claim C7, as the code has it. A tick starts a flush exactly when the buffer, after the
  queue has been drained into it, is not empty, a recording is open, and the time since
  \<open>lastProcessTime\<close> exceeds the phrase timeout (3000 by default). The trigger is
  \<open>phrase_timeout\<close> when fragments arrived for this tick and \<open>idle_timeout\<close> when none
  did. \<open>lastProcessTime\<close> is set to the time of every tick that drains fragments, whether
  it flushes or not, and is left alone by a tick that finds the queue empty: the elapsed
  time is measured from the last tick that received fragments, not from the last flush.
\<close>

theorem tick_flushes_on_gap_since_last_drain:
  "readers (processing_tick now w)
     = readers w @
       (if accumulatedAudio (svc w) @ audioQueue (svc w) \<noteq> []
           \<and> now - lastProcessTime (svc w) > phraseTimeout (svc w)
           \<and> truthy (currentRecordingId (svc w))
        then [\<lparr>rd_blob = concat (accumulatedAudio (svc w) @ audioQueue (svc w)),
               rd_trigger = (if audioQueue (svc w) \<noteq> [] then ''phrase_timeout''
                             else ''idle_timeout'')\<rparr>]
        else [])
   \<and> lastProcessTime (svc (processing_tick now w))
       = (if audioQueue (svc w) \<noteq> [] then now else lastProcessTime (svc w))
   \<and> phraseTimeout initial_service = 3000"
  by (simp add: processing_tick_def sendAccumulatedAudio_def Let_def initial_service_def)

theorem tick_flushes_on_gap_since_last_drain_witness:
  "let w = run [DataAvailable [1], Tick 250, DataAvailable [2]] started_world
   in readers (processing_tick 3251 w) = [\<lparr>rd_blob = [1, 2], rd_trigger = ''phrase_timeout''\<rparr>]
      \<and> readers (processing_tick 3250 w) = []
      \<and> readers (processing_tick 3251 (processing_tick 3250 w)) = []
      \<and> readers (processing_tick 6251 (processing_tick 3250 w))
          = [\<lparr>rd_blob = [1, 2], rd_trigger = ''idle_timeout''\<rparr>]"
  using tick_flushes_on_gap_since_last_drain
     [of 3251 "run [DataAvailable [1], Tick 250, DataAvailable [2]] started_world"]
  by (simp add: started_world_value handler_defs Let_def)

text \<open>
  The claim as written fails: the only flush of the run below starts at time 3001. At the
  tick at 6500 a new fragment has arrived, the buffer is not empty and 3499 ms have passed
  since that flush, yet the tick starts no flush, because the previous tick, at 5000,
  received a fragment.
\<close>

theorem no_flush_though_last_flush_is_old:
  "let before = run [DataAvailable [1]] started_world;
       w = run [Tick 3001, DataAvailable [2], Tick 5000, DataAvailable [3]] before
   in calls before = calls started_world
      \<and> calls (step (Tick 3001) before) = calls started_world @ [ReadAsDataURL [1]]
      \<and> calls w = calls started_world @ [ReadAsDataURL [1]]
      \<and> 6500 - 3001 > phraseTimeout (svc w)
      \<and> audioQueue (svc w) = [[3]]
      \<and> accumulatedAudio (svc (step (Tick 6500) w)) = [[1], [2], [3]]
      \<and> readers (step (Tick 6500) w) = readers w
      \<and> calls (step (Tick 6500) w) = calls w"
  by (simp add: started_world_value handler_defs Let_def)

section \<open>Fragments that keep arriving\<close>

lemma step_keeps_timer [simp]:
  "processingInterval (svc (step e w)) = processingInterval (svc w)"
  by (cases e) (auto simp: handler_defs Let_def split: prod.splits sum.splits)

lemma step_keeps_timeout [simp]:
  "phraseTimeout (svc (step e w)) = phraseTimeout (svc w)"
  by (cases e) (auto simp: handler_defs Let_def split: prod.splits sum.splits)

lemma arrive_and_drain:
  assumes "processingInterval (svc w)" and "data \<noteq> []"
    and "\<not> now - lastProcessTime (svc w) > phraseTimeout (svc w)"
  shows "step (Tick now) (step (DataAvailable data) w)
     = w\<lparr>svc := (svc w)\<lparr>audioQueue := [],
                         audioChunks := audioChunks (svc w) @ [data],
                         accumulatedAudio := accumulatedAudio (svc w) @ audioQueue (svc w) @ [data],
                         lastProcessTime := now\<rparr>\<rparr>"
  using assms by (simp add: ondataavailable_def processing_tick_def Let_def)

lemma fragments_every_250ms_12:
  "fragments_every_250ms 12 = [([1], 250), ([2], 500), ([3], 750), ([4], 1000), ([5], 1250), ([6], 1500), ([7], 1750), ([8], 2000), ([9], 2250), ([10], 2500), ([11], 2750), ([12], 3000)]"
  by code_simp

lemma fragments_every_250ms_24:
  "fragments_every_250ms 24 = [([1], 250), ([2], 500), ([3], 750), ([4], 1000), ([5], 1250), ([6], 1500), ([7], 1750), ([8], 2000), ([9], 2250), ([10], 2500), ([11], 2750), ([12], 3000), ([13], 3250), ([14], 3500), ([15], 3750), ([16], 4000), ([17], 4250), ([18], 4500), ([19], 4750), ([20], 5000), ([21], 5250), ([22], 5500), ([23], 5750), ([24], 6000)]"
  by code_simp

text \<open>
  Claim C2, as the code has it. While the processing loop runs, let every tick be preceded
  by the arrival of a non-empty fragment, and let no tick come more than the phrase timeout
  after the previous one (the first, after \<open>lastProcessTime\<close>). Then no tick starts a
  flush: no read is started, no upload is sent, and the buffer grows by every fragment, in
  arrival order. A timeout flush needs a gap in the arrivals longer than the timeout.
\<close>

theorem steady_arrivals_never_time_out:
  assumes "processingInterval (svc w)"
    and "list_all (\<lambda>p. fst p \<noteq> []) ps"
    and "steady (phraseTimeout (svc w)) (lastProcessTime (svc w)) (map snd ps)"
  shows "readers (feed ps w) = readers w \<and> inflight (feed ps w) = inflight w
     \<and> calls (feed ps w) = calls w
     \<and> accumulatedAudio (svc (feed ps w)) @ audioQueue (svc (feed ps w))
         = accumulatedAudio (svc w) @ audioQueue (svc w) @ map fst ps
     \<and> (ps \<noteq> [] \<longrightarrow> audioQueue (svc (feed ps w)) = [])"
  using assms
proof (induction ps arbitrary: w)
  case Nil
  then show ?case by simp
next
  case (Cons p ps)
  obtain data now where p: "p = (data, now)" by (cases p)
  define w1 where "w1 = step (Tick now) (step (DataAvailable data) w)"
  have w1: "w1 = w\<lparr>svc := (svc w)\<lparr>audioQueue := [],
                         audioChunks := audioChunks (svc w) @ [data],
                         accumulatedAudio := accumulatedAudio (svc w) @ audioQueue (svc w) @ [data],
                         lastProcessTime := now\<rparr>\<rparr>"
    unfolding w1_def using Cons.prems p by (intro arrive_and_drain) simp_all
  have same: "readers w1 = readers w" "inflight w1 = inflight w" "calls w1 = calls w"
    and drained: "audioQueue (svc w1) = []"
      "accumulatedAudio (svc w1) = accumulatedAudio (svc w) @ audioQueue (svc w) @ [data]"
    by (simp_all add: w1)
  have ih: "readers (feed ps w1) = readers w1 \<and> inflight (feed ps w1) = inflight w1
     \<and> calls (feed ps w1) = calls w1
     \<and> accumulatedAudio (svc (feed ps w1)) @ audioQueue (svc (feed ps w1))
         = accumulatedAudio (svc w1) @ audioQueue (svc w1) @ map fst ps
     \<and> (ps \<noteq> [] \<longrightarrow> audioQueue (svc (feed ps w1)) = [])"
  proof (rule Cons.IH)
    show "processingInterval (svc w1)"
      unfolding w1 using Cons.prems(1) by simp
    show "list_all (\<lambda>p. fst p \<noteq> []) ps"
      using Cons.prems(2) by simp
    show "steady (phraseTimeout (svc w1)) (lastProcessTime (svc w1)) (map snd ps)"
      unfolding w1 using Cons.prems(3) p by simp
  qed
  have unfold: "feed (p # ps) w = feed ps w1"
    using p by (simp add: w1_def)
  have last_queue: "audioQueue (svc (feed ps w1)) = []"
    using ih drained(1) by (cases "ps = []") simp_all
  have pending: "accumulatedAudio (svc (feed ps w1)) @ audioQueue (svc (feed ps w1))
      = accumulatedAudio (svc w) @ audioQueue (svc w) @ map fst (p # ps)"
    using ih p by (simp only: drained) simp
  show ?case
    unfolding unfold using ih same last_queue pending by simp
qed

theorem steady_arrivals_never_time_out_witness:
  "let ps = [([1], 250), ([2], 500), ([3], 3500), ([4], 6500)]
   in processingInterval (svc started_world)
      \<and> list_all (\<lambda>p. fst p \<noteq> []) ps
      \<and> steady (phraseTimeout (svc started_world)) (lastProcessTime (svc started_world)) (map snd ps)
      \<and> readers (feed ps started_world) = []
      \<and> calls (feed ps started_world) = calls started_world
      \<and> accumulatedAudio (svc (feed ps started_world)) = [[1], [2], [3], [4]]"
  using steady_arrivals_never_time_out
    [of started_world "[([1], 250), ([2], 500), ([3], 3500), ([4], 6500)]"]
  by (simp add: started_world_value handler_defs Let_def)

text \<open>
  The claim as written fails: with 12 fragments of 250 ms arriving over 3 s and no speech
  result, no flush starts and the buffer holds the 12 fragments afterwards; after 24
  fragments over 6 s there is still no flush.
\<close>

theorem steady_fragments_start_no_flush:
  "readers (feed (fragments_every_250ms 12) started_world) = []
   \<and> uploads (calls (feed (fragments_every_250ms 12) started_world)) = []
   \<and> accumulatedAudio (svc (feed (fragments_every_250ms 12) started_world))
       = [[1], [2], [3], [4], [5], [6], [7], [8], [9], [10], [11], [12]]
   \<and> accumulatedAudio (svc (feed (fragments_every_250ms 12) started_world)) \<noteq> []
   \<and> readers (feed (fragments_every_250ms 24) started_world) = []
   \<and> uploads (calls (feed (fragments_every_250ms 24) started_world)) = []
   \<and> length (accumulatedAudio (svc (feed (fragments_every_250ms 24) started_world))) = 24"
  by (simp add: fragments_every_250ms_12 fragments_every_250ms_24 started_world_value
      handler_defs Let_def)

section \<open>The flush at a speech boundary\<close>

lemma uploads_append [simp]: "uploads (xs @ ys) = uploads xs @ uploads ys"
  by (induction xs rule: uploads.induct) simp_all

text \<open>
  Claim C6, as the code has it. A recognition result whose final transcripts, joined, are
  not blank starts a flush when the buffer is not empty and a recording is open: the
  payload is the concatenation of the buffer, that is of the fragments drained so far, and
  the trigger is the joined final transcript itself. When the read finishes, the upload
  carries that transcript in its \<open>detected_speech\<close> field. A result without a non-blank
  final transcript changes nothing.
\<close>

theorem speech_flush_carries_transcript:
  "(trim_truthy (finalTranscript results) \<and> accumulatedAudio (svc w) \<noteq> []
      \<and> truthy (currentRecordingId (svc w)) \<longrightarrow>
        readers (onresult results w)
          = readers w @ [\<lparr>rd_blob = concat (accumulatedAudio (svc w)),
                          rd_trigger = finalTranscript results\<rparr>]
        \<and> uploads (calls (step (ReaderLoaded (length (readers w))) (onresult results w)))
          = uploads (calls w)
            @ [\<lparr>rq_recording_id = currentRecordingId (svc w),
                 rq_audio_data = concat (accumulatedAudio (svc w)),
                 rq_detected_speech = finalTranscript results,
                 rq_chunk_count = length (accumulatedAudio (svc w))\<rparr>])
   \<and> (\<not> trim_truthy (finalTranscript results) \<longrightarrow> onresult results w = w)"
proof (intro conjI impI)
  assume a: "trim_truthy (finalTranscript results) \<and> accumulatedAudio (svc w) \<noteq> []
      \<and> truthy (currentRecordingId (svc w))"
  then have flush: "onresult results w =
     w\<lparr>readers := readers w @ [\<lparr>rd_blob = concat (accumulatedAudio (svc w)),
                                 rd_trigger = finalTranscript results\<rparr>],
       calls := calls w @ [ReadAsDataURL (concat (accumulatedAudio (svc w)))]\<rparr>"
    by (simp add: onresult_def sendAccumulatedAudio_starts_read)
  show "readers (onresult results w)
          = readers w @ [\<lparr>rd_blob = concat (accumulatedAudio (svc w)),
                          rd_trigger = finalTranscript results\<rparr>]"
    by (simp add: flush)
  show "uploads (calls (step (ReaderLoaded (length (readers w))) (onresult results w)))
          = uploads (calls w)
            @ [\<lparr>rq_recording_id = currentRecordingId (svc w),
                 rq_audio_data = concat (accumulatedAudio (svc w)),
                 rq_detected_speech = finalTranscript results,
                 rq_chunk_count = length (accumulatedAudio (svc w))\<rparr>]"
    by (simp add: flush onloadend_def remove_nth_def Let_def)
next
  assume "\<not> trim_truthy (finalTranscript results)"
  then show "onresult results w = w"
    by (simp add: onresult_def)
qed

theorem speech_flush_carries_transcript_witness:
  "let w = run [DataAvailable [1], DataAvailable [2], Tick 250] started_world;
       results = [(True, ''good ''), (False, ''mor''), (True, ''day'')]
   in trim_truthy (finalTranscript results) \<and> accumulatedAudio (svc w) \<noteq> []
      \<and> truthy (currentRecordingId (svc w))
      \<and> readers (onresult results w) = [\<lparr>rd_blob = [1, 2], rd_trigger = ''good day''\<rparr>]
      \<and> \<not> trim_truthy (finalTranscript [(False, ''mor''), (True, ''  '')])
      \<and> onresult [(False, ''mor''), (True, ''  '')] w = w"
  using speech_flush_carries_transcript
     [of "[(True, ''good ''), (False, ''mor''), (True, ''day'')]"
         "run [DataAvailable [1], DataAvailable [2], Tick 250] started_world"]
    speech_flush_carries_transcript
     [of "[(False, ''mor''), (True, ''  '')]"
         "run [DataAvailable [1], DataAvailable [2], Tick 250] started_world"]
  by (simp add: started_world_value handler_defs Let_def)

text \<open>
  The claim as written fails: for the final transcript \<open>hello\<close> the upload's trigger
  field is \<open>hello\<close>, not \<open>speech_detected\<close>.
\<close>

theorem speech_flush_reason_is_not_speech_detected:
  "let w = run [DataAvailable [1], DataAvailable [2], Tick 250,
                SpeechResult [(True, ''hello'')], ReaderLoaded 0] started_world
   in uploads (calls w)
        = [\<lparr>rq_recording_id = Some ''rec-1'', rq_audio_data = [1, 2],
             rq_detected_speech = ''hello'', rq_chunk_count = 2\<rparr>]
      \<and> map rq_detected_speech (uploads (calls w)) \<noteq> [''speech_detected'']"
  by (simp add: started_world_value handler_defs Let_def)

section \<open>Stopping the session\<close>

lemma emit_fields [simp]:
  "svc (emit as w) = svc w" "readers (emit as w) = readers w"
  "inflight (emit as w) = inflight w" "calls (emit as w) = calls w @ as"
  by (simp_all add: emit_def)

lemma stopContinuousProcessing_fields [simp]:
  "readers (stopContinuousProcessing w) = readers w"
  "inflight (stopContinuousProcessing w) = inflight w"
  "svc (stopContinuousProcessing w) = (svc w)\<lparr>processingInterval := False\<rparr>"
  "calls (stopContinuousProcessing w)
     = calls w @ (if processingInterval (svc w) then [ClearProcessingInterval] else [])"
  by (simp_all add: stopContinuousProcessing_def)

lemma stopTranscriptionPolling_fields [simp]:
  "readers (stopTranscriptionPolling w) = readers w"
  "inflight (stopTranscriptionPolling w) = inflight w"
  "svc (stopTranscriptionPolling w) = (svc w)\<lparr>transcriptionInterval := False\<rparr>"
  "calls (stopTranscriptionPolling w)
     = calls w @ (if transcriptionInterval (svc w) then [ClearTranscriptionInterval] else [])"
  by (simp_all add: stopTranscriptionPolling_def)

lemma sendAccumulatedAudio_fields:
  "inflight (sendAccumulatedAudio trigger w) = inflight w"
  "readers (sendAccumulatedAudio trigger w)
     = readers w @ (if accumulatedAudio (svc w) \<noteq> [] \<and> truthy (currentRecordingId (svc w))
                    then [\<lparr>rd_blob = concat (accumulatedAudio (svc w)), rd_trigger = trigger\<rparr>]
                    else [])"
  "calls (sendAccumulatedAudio trigger w)
     = calls w @ (if accumulatedAudio (svc w) \<noteq> [] \<and> truthy (currentRecordingId (svc w))
                  then [ReadAsDataURL (concat (accumulatedAudio (svc w)))] else [])"
  by (simp_all add: sendAccumulatedAudio_def Let_def)

text \<open>The world \<^verbatim>\<open>stopRecording\<close> reaches just before it calls \<^verbatim>\<open>mediaRecorder.stop()\<close>.\<close>

lemma stop_begin_active:
  assumes "mediaRecorder (svc w)" and "truthy (currentRecordingId (svc w))"
  shows "stopRecording_begin env w =
     (let w1 = stopContinuousProcessing w;
          w2 = (if speechRecognition (svc w1)
                then (emit [SpeechRecognitionStop] w1)\<lparr>svc := (svc w1)\<lparr>isListening := False\<rparr>\<rparr>
                else w1);
          w3 = sendAccumulatedAudio ''Final chunk'' w2;
          w4 = stopTranscriptionPolling w3;
          w5 = emit [MediaRecorderStop] w4
      in if recorder_stop_throws env
         then (Some InvalidStateError, emit [ConsoleError ''Failed to stop recording''] w5)
         else (None, emit [TracksStop, FetchRecordingStop (currentRecordingId (svc w))] w5))"
  using assms
  by (simp add: stopRecording_begin_def Let_def sendAccumulatedAudio_empty)

lemma stop_begin_readers:
  assumes "mediaRecorder (svc w)" and "truthy (currentRecordingId (svc w))"
  shows "readers (snd (stopRecording_begin env w))
     = readers w @ (if accumulatedAudio (svc w) \<noteq> []
                    then [\<lparr>rd_blob = concat (accumulatedAudio (svc w)), rd_trigger = ''Final chunk''\<rparr>]
                    else [])"
  using assms by (simp add: stop_begin_active Let_def sendAccumulatedAudio_fields)

lemma stop_begin_calls:
  assumes "mediaRecorder (svc w)" and "truthy (currentRecordingId (svc w))"
  shows "calls (snd (stopRecording_begin env w))
     = calls w
       @ (if processingInterval (svc w) then [ClearProcessingInterval] else [])
       @ (if speechRecognition (svc w) then [SpeechRecognitionStop] else [])
       @ (if accumulatedAudio (svc w) \<noteq> [] then [ReadAsDataURL (concat (accumulatedAudio (svc w)))] else [])
       @ (if transcriptionInterval (svc w) then [ClearTranscriptionInterval] else [])
       @ [MediaRecorderStop]
       @ (if recorder_stop_throws env then [ConsoleError ''Failed to stop recording'']
          else [TracksStop, FetchRecordingStop (currentRecordingId (svc w))])"
  using assms by (simp add: stop_begin_active Let_def sendAccumulatedAudio_fields)

lemma stop_begin_svc:
  assumes "mediaRecorder (svc w)" and "truthy (currentRecordingId (svc w))"
  shows "svc (snd (stopRecording_begin env w))
     = (svc w)\<lparr>processingInterval := False, transcriptionInterval := False,
               isListening := (if speechRecognition (svc w) then False else isListening (svc w))\<rparr>"
  using assms by (simp add: stop_begin_active Let_def)

lemma stop_begin_result:
  assumes "mediaRecorder (svc w)" and "truthy (currentRecordingId (svc w))"
  shows "fst (stopRecording_begin env w)
     = (if recorder_stop_throws env then Some InvalidStateError else None)"
    and "inflight (snd (stopRecording_begin env w)) = inflight w"
  using assms by (simp_all add: stop_begin_active Let_def sendAccumulatedAudio_fields)

lemma uploads_stop_finish [simp]:
  "uploads (calls (snd (stopRecording_finish reply w))) = uploads (calls w)"
  by (simp add: stopRecording_finish_def makeRequest_def
      split: fetch_result.splits option.splits)

text \<open>
  Claim C5, as the code has it. Stopping a session that is recording, with at least one
  fragment in the accumulation buffer, starts exactly one read, of the concatenation of the
  buffer with the trigger \<open>Final chunk\<close>, and sends no upload by itself. When that read
  finishes while the stop request is awaited, exactly one upload is sent: it carries the
  recording id, the concatenation of the buffer, the trigger \<open>Final chunk\<close> and the
  number of buffered fragments.
\<close>

theorem stop_sends_buffer_as_final_chunk:
  assumes "mediaRecorder (svc w)" and "truthy (currentRecordingId (svc w))"
    and "accumulatedAudio (svc w) \<noteq> []"
  shows "readers (snd (stopRecording_begin env w))
           = readers w @ [\<lparr>rd_blob = concat (accumulatedAudio (svc w)),
                           rd_trigger = ''Final chunk''\<rparr>]
     \<and> uploads (calls (snd (stopRecording_begin env w))) = uploads (calls w)
     \<and> (\<not> recorder_stop_throws env \<longrightarrow>
          uploads (calls (snd (stopRecording env [ReaderLoaded (length (readers w))] reply w)))
            = uploads (calls w)
              @ [\<lparr>rq_recording_id = currentRecordingId (svc w),
                   rq_audio_data = concat (accumulatedAudio (svc w)),
                   rq_detected_speech = ''Final chunk'',
                   rq_chunk_count = length (accumulatedAudio (svc w))\<rparr>])"
proof -
  obtain r w' where b: "stopRecording_begin env w = (r, w')"
    by (cases "stopRecording_begin env w")
  have r: "r = (if recorder_stop_throws env then Some InvalidStateError else None)"
    using stop_begin_result(1) [OF assms(1,2), of env] b by simp
  have rd: "readers w' = readers w @ [\<lparr>rd_blob = concat (accumulatedAudio (svc w)),
                           rd_trigger = ''Final chunk''\<rparr>]"
    using stop_begin_readers [OF assms(1,2), of env] assms(3) b by simp
  have up: "uploads (calls w') = uploads (calls w)"
    using stop_begin_calls [OF assms(1,2), of env] b by simp
  have sv: "accumulatedAudio (svc w') = accumulatedAudio (svc w)"
      "currentRecordingId (svc w') = currentRecordingId (svc w)"
    using stop_begin_svc [OF assms(1,2), of env] b by simp_all
  have loaded: "uploads (calls (step (ReaderLoaded (length (readers w))) w'))
       = uploads (calls w)
              @ [\<lparr>rq_recording_id = currentRecordingId (svc w),
                   rq_audio_data = concat (accumulatedAudio (svc w)),
                   rq_detected_speech = ''Final chunk'',
                   rq_chunk_count = length (accumulatedAudio (svc w))\<rparr>]"
    by (simp add: rd up sv onloadend_def remove_nth_def Let_def)
  have whole: "\<not> recorder_stop_throws env \<Longrightarrow>
      stopRecording env [ReaderLoaded (length (readers w))] reply w
        = stopRecording_finish reply (step (ReaderLoaded (length (readers w))) w')"
    using b r by (simp add: stopRecording_def del: step.simps)
  show ?thesis
    using rd up loaded whole b by (simp del: step.simps)
qed

theorem stop_sends_buffer_as_final_chunk_witness:
  "let w = run [DataAvailable [1], DataAvailable [2], Tick 250] started_world;
       env = \<lparr>speech_stop_throws = True, recorder_stop_throws = False\<rparr>
   in mediaRecorder (svc w) \<and> truthy (currentRecordingId (svc w))
      \<and> accumulatedAudio (svc w) \<noteq> []
      \<and> readers (snd (stopRecording_begin env w))
           = [\<lparr>rd_blob = [1, 2], rd_trigger = ''Final chunk''\<rparr>]
      \<and> uploads (calls (snd (stopRecording env [ReaderLoaded 0] stop_reply_ok w)))
           = [\<lparr>rq_recording_id = Some ''rec-1'', rq_audio_data = [1, 2],
                rq_detected_speech = ''Final chunk'', rq_chunk_count = 2\<rparr>]"
  using stop_sends_buffer_as_final_chunk
    [of "run [DataAvailable [1], DataAvailable [2], Tick 250] started_world"
        "\<lparr>speech_stop_throws = True, recorder_stop_throws = False\<rparr>" stop_reply_ok]
  by (simp add: started_world_value handler_defs Let_def)

text \<open>
  The claim as written fails. When stop follows the capture of a fragment that no tick has
  drained, the fragment is in the queue, the buffer is empty, and stop uploads nothing and
  discards the queue. When a tick has drained the fragment, the one upload has the reason
  \<open>Final chunk\<close>, not \<open>final\<close>.
\<close>

theorem stop_right_after_start_uploads_nothing:
  "let env = \<lparr>speech_stop_throws = False, recorder_stop_throws = False\<rparr>;
       captured = run [DataAvailable [1]] started_world;
       stopped = stopRecording env [] stop_reply_ok captured;
       drained = run [DataAvailable [1], Tick 250] started_world;
       stopped' = stopRecording env [ReaderLoaded 0] stop_reply_ok drained
   in audioQueue (svc captured) = [[1]]
      \<and> fst stopped = Inr \<lparr>success = True, recording_id = Some ''rec-1'',
                            transcription_enabled = False, transcription = []\<rparr>
      \<and> uploads (calls (snd stopped)) = []
      \<and> readers (snd stopped) = [] \<and> inflight (snd stopped) = []
      \<and> audioQueue (svc (snd stopped)) = [] \<and> accumulatedAudio (svc (snd stopped)) = []
      \<and> map rq_detected_speech (uploads (calls (snd stopped'))) = [''Final chunk'']
      \<and> map rq_detected_speech (uploads (calls (snd stopped'))) \<noteq> [''final'']"
  by (simp add: started_world_value stop_reply_ok_def handler_defs session_defs Let_def)

text \<open>
  Claim C8, as the code has it. Stopping a session in which the processing loop runs, the
  recogniser exists and the buffer is not empty makes these calls in this order: it cancels
  the processing timer, stops the recogniser, starts the final flush, cancels the
  transcription polling if it runs, and stops the recorder; then it stops the tracks and
  sends the stop request. Whether the recogniser's stop throws makes no difference. When
  the recorder's stop throws, the tracks are not stopped, no stop request is sent, the
  promise rejects and the session fields are not reset.
\<close>

theorem stop_order_of_steps:
  assumes "mediaRecorder (svc w)" and "truthy (currentRecordingId (svc w))"
    and "processingInterval (svc w)" and "speechRecognition (svc w)"
    and "accumulatedAudio (svc w) \<noteq> []"
  shows "calls (snd (stopRecording_begin env w))
     = calls w
       @ [ClearProcessingInterval, SpeechRecognitionStop,
          ReadAsDataURL (concat (accumulatedAudio (svc w)))]
       @ (if transcriptionInterval (svc w) then [ClearTranscriptionInterval] else [])
       @ [MediaRecorderStop]
       @ (if recorder_stop_throws env then [ConsoleError ''Failed to stop recording'']
          else [TracksStop, FetchRecordingStop (currentRecordingId (svc w))])
     \<and> (recorder_stop_throws env \<longrightarrow>
          fst (stopRecording env es reply w) = Inl InvalidStateError
          \<and> mediaRecorder (svc (snd (stopRecording env es reply w)))
          \<and> currentRecordingId (svc (snd (stopRecording env es reply w)))
              = currentRecordingId (svc w))"
proof -
  obtain r w' where b: "stopRecording_begin env w = (r, w')"
    by (cases "stopRecording_begin env w")
  have r: "r = (if recorder_stop_throws env then Some InvalidStateError else None)"
    using stop_begin_result(1) [OF assms(1,2), of env] b by simp
  have sv: "mediaRecorder (svc w')" "currentRecordingId (svc w') = currentRecordingId (svc w)"
    using stop_begin_svc [OF assms(1,2), of env] assms(1) b by simp_all
  have thrown: "recorder_stop_throws env \<Longrightarrow> stopRecording env es reply w = (Inl InvalidStateError, w')"
    using b r by (simp add: stopRecording_def)
  show ?thesis
    using stop_begin_calls [OF assms(1,2), of env] assms(3,4,5) thrown sv by simp
qed

theorem stop_order_of_steps_witness:
  "let w = run [DataAvailable [1], DataAvailable [2], Tick 250] started_world;
       env = \<lparr>speech_stop_throws = True, recorder_stop_throws = True\<rparr>
   in mediaRecorder (svc w) \<and> truthy (currentRecordingId (svc w))
      \<and> processingInterval (svc w) \<and> speechRecognition (svc w)
      \<and> accumulatedAudio (svc w) \<noteq> []
      \<and> calls (snd (stopRecording_begin env w))
          = calls w @ [ClearProcessingInterval, SpeechRecognitionStop, ReadAsDataURL [1, 2],
                       MediaRecorderStop, ConsoleError ''Failed to stop recording'']
      \<and> fst (stopRecording env [] stop_reply_ok w) = Inl InvalidStateError"
  using stop_order_of_steps
    [of "run [DataAvailable [1], DataAvailable [2], Tick 250] started_world"
        "\<lparr>speech_stop_throws = True, recorder_stop_throws = True\<rparr>" "[]" stop_reply_ok]
  by (simp add: started_world_value handler_defs Let_def)

text \<open>
  The claim as written fails: the capture source is stopped last, after the recogniser and
  the final flush, not second; and a recorder whose stop throws cuts the remaining steps
  short.
\<close>

theorem stop_flushes_before_capture_stops:
  "let w = run [DataAvailable [1], Tick 250] started_world;
       quiet = \<lparr>speech_stop_throws = False, recorder_stop_throws = False\<rparr>;
       failing = \<lparr>speech_stop_throws = False, recorder_stop_throws = True\<rparr>
   in drop (length (calls w)) (calls (snd (stopRecording_begin quiet w)))
        = [ClearProcessingInterval, SpeechRecognitionStop, ReadAsDataURL [1],
           MediaRecorderStop, TracksStop, FetchRecordingStop (Some ''rec-1'')]
      \<and> drop (length (calls w)) (calls (snd (stopRecording failing [] stop_reply_ok w)))
        = [ClearProcessingInterval, SpeechRecognitionStop, ReadAsDataURL [1],
           MediaRecorderStop, ConsoleError ''Failed to stop recording'']
      \<and> fst (stopRecording failing [] stop_reply_ok w) = Inl InvalidStateError
      \<and> currentRecordingId (svc (snd (stopRecording failing [] stop_reply_ok w))) = Some ''rec-1''"
  by (simp add: started_world_value stop_reply_ok_def handler_defs session_defs Let_def)

section \<open>An upload that fails\<close>

lemma makeRequest_failure_logged:
  "snd (makeRequest reply) = Inl e \<Longrightarrow> fst (makeRequest reply) = [ConsoleError ''API request failed'']"
  by (auto simp: makeRequest_def split: fetch_result.splits option.splits if_splits)

lemma upload_settled_failure:
  "snd (makeRequest reply) = Inl e \<Longrightarrow>
   upload_settled reply w
     = emit [ConsoleError ''API request failed'', ConsoleError ''Failed to upload accumulated audio''] w"
  using makeRequest_failure_logged [of reply e]
  by (cases "makeRequest reply") (simp add: upload_settled_def)

text \<open>
  Claim C9. Take a flush of a non-empty buffer in an open recording, the end of its read,
  and the failure of its upload. Afterwards the service is what it was before the flush:
  recording id, processing timer, recorder, queue and buffer are unchanged. The failure is
  written to the console twice. Nothing is pending: the one upload sent is the one that
  failed, and no further read or upload was started for it. Accumulation goes on: a
  fragment that arrives next is drained behind the fragments whose upload failed, and the
  next flush sends the failed data followed by the newer data.
\<close>

theorem upload_failure_keeps_session_and_data:
  assumes "accumulatedAudio (svc w) \<noteq> []" and "truthy (currentRecordingId (svc w))"
    and "snd (makeRequest reply) = Inl e"
  shows "let flushed = sendAccumulatedAudio trigger w;
             sent = step (ReaderLoaded (length (readers w))) flushed;
             failed = step (UploadSettled (length (inflight w)) reply) sent;
             later = processing_tick now (ondataavailable data failed)
         in svc failed = svc w
            \<and> readers failed = readers w \<and> inflight failed = inflight w
            \<and> calls failed
                = calls w
                  @ [ReadAsDataURL (concat (accumulatedAudio (svc w))),
                     FetchRecordingChunk
                       \<lparr>rq_recording_id = currentRecordingId (svc w),
                        rq_audio_data = concat (accumulatedAudio (svc w)),
                        rq_detected_speech = trigger,
                        rq_chunk_count = length (accumulatedAudio (svc w))\<rparr>,
                     ConsoleError ''API request failed'',
                     ConsoleError ''Failed to upload accumulated audio'']
            \<and> (data \<noteq> [] \<longrightarrow>
                 accumulatedAudio (svc later)
                   = accumulatedAudio (svc w) @ audioQueue (svc w) @ [data]
                 \<and> rd_blob (last (readers (sendAccumulatedAudio trigger' later)))
                   = concat (accumulatedAudio (svc w)) @ concat (audioQueue (svc w)) @ data)"
proof -
  define flushed where "flushed = sendAccumulatedAudio trigger w"
  define sent where "sent = step (ReaderLoaded (length (readers w))) flushed"
  define failed where "failed = step (UploadSettled (length (inflight w)) reply) sent"
  define later where "later = processing_tick now (ondataavailable data failed)"
  define req where "req = \<lparr>rq_recording_id = currentRecordingId (svc w),
                        rq_audio_data = concat (accumulatedAudio (svc w)),
                        rq_detected_speech = trigger,
                        rq_chunk_count = length (accumulatedAudio (svc w))\<rparr>"
  have flushed: "flushed = w\<lparr>readers := readers w @ [\<lparr>rd_blob = concat (accumulatedAudio (svc w)), rd_trigger = trigger\<rparr>],
       calls := calls w @ [ReadAsDataURL (concat (accumulatedAudio (svc w)))]\<rparr>"
    unfolding flushed_def using assms(1,2) by (rule sendAccumulatedAudio_starts_read)
  have sent: "sent = w\<lparr>inflight := inflight w @ [req],
       calls := calls w @ [ReadAsDataURL (concat (accumulatedAudio (svc w))), FetchRecordingChunk req]\<rparr>"
    unfolding sent_def by (simp add: flushed onloadend_def remove_nth_def Let_def req_def)
  have failed: "failed = w\<lparr>calls := calls w @ [ReadAsDataURL (concat (accumulatedAudio (svc w))),
          FetchRecordingChunk req, ConsoleError ''API request failed'',
          ConsoleError ''Failed to upload accumulated audio'']\<rparr>"
    unfolding failed_def
    by (simp add: sent upload_settled_failure [OF assms(3)] remove_nth_def emit_def)
  have buffer: "data \<noteq> [] \<Longrightarrow>
      accumulatedAudio (svc later) = accumulatedAudio (svc w) @ audioQueue (svc w) @ [data]"
    unfolding later_def by (simp add: failed ondataavailable_def processing_tick_def Let_def)
  have id: "currentRecordingId (svc later) = currentRecordingId (svc w)"
    unfolding later_def by (simp add: failed ondataavailable_def processing_tick_def Let_def)
  have next_flush: "data \<noteq> [] \<Longrightarrow>
      rd_blob (last (readers (sendAccumulatedAudio trigger' later)))
        = concat (accumulatedAudio (svc w)) @ concat (audioQueue (svc w)) @ data"
    using assms(2) by (simp add: sendAccumulatedAudio_def Let_def buffer id)
  have "svc failed = svc w \<and> readers failed = readers w \<and> inflight failed = inflight w"
    by (simp add: failed)
  moreover have "calls failed = calls w @ [ReadAsDataURL (concat (accumulatedAudio (svc w))),
          FetchRecordingChunk req, ConsoleError ''API request failed'',
          ConsoleError ''Failed to upload accumulated audio'']"
    by (simp add: failed)
  ultimately show ?thesis
    using buffer next_flush
    unfolding Let_def flushed_def [symmetric] sent_def [symmetric] failed_def [symmetric]
      later_def [symmetric] req_def [symmetric]
    by blast
qed

theorem upload_failure_keeps_session_and_data_witness:
  "let w = run [DataAvailable [1], DataAvailable [2], Tick 250] started_world;
       reply = FetchResponse 503 (Some ());
       failed = run [SpeechResult [(True, ''hello'')], ReaderLoaded 0, UploadSettled 0 reply] w;
       later = processing_tick 500 (ondataavailable [3] failed)
   in accumulatedAudio (svc w) \<noteq> [] \<and> truthy (currentRecordingId (svc w))
      \<and> snd (makeRequest reply) = Inl (HttpError 503)
      \<and> svc failed = svc w \<and> readers failed = [] \<and> inflight failed = []
      \<and> uploads (calls failed) = [\<lparr>rq_recording_id = Some ''rec-1'', rq_audio_data = [1, 2],
             rq_detected_speech = ''hello'', rq_chunk_count = 2\<rparr>]
      \<and> accumulatedAudio (svc later) = [[1], [2], [3]]
      \<and> readers (sendAccumulatedAudio ''again'' later)
          = [\<lparr>rd_blob = [1, 2, 3], rd_trigger = ''again''\<rparr>]"
  using upload_failure_keeps_session_and_data
    [of "run [DataAvailable [1], DataAvailable [2], Tick 250] started_world"
        "FetchResponse 503 (Some ())" "HttpError 503" "''hello''" 500 "[3]" "''again''"]
  by (simp add: started_world_value handler_defs Let_def)

section \<open>The health check\<close>

text \<open>
  Claim C10. \<^verbatim>\<open>healthCheck\<close> never rejects, whatever the backend does and however the
  method is called. Whenever the request fails it resolves, 500 ms later, with the made-up
  value whose status is \<open>connected\<close> and whose service is \<open>audio-backend\<close>. The caller
  in the sidebar therefore sets the status \<open>connected\<close> for every behaviour of the
  backend, the same for a backend that cannot be reached as for any other.
\<close>

theorem healthCheck_always_resolves:
  "(\<exists>h. snd (healthCheck this_bound reply) = Inr h)
   \<and> (\<forall>e. snd (makeRequest reply) = Inl e \<longrightarrow>
         healthCheck this_bound reply = (500, Inr fabricated_health))
   \<and> status fabricated_health = ''connected''
   \<and> service fabricated_health = ''audio-backend''
   \<and> checkBackend reply = Connected
   \<and> checkBackend reply = checkBackend FetchRejects"
  by (auto simp: healthCheck_def checkBackend_def useBackend_healthCheck_def
      fabricated_health_def split: sum.splits)

theorem healthCheck_always_resolves_witness:
  "snd (makeRequest (FetchResponse 503 (None :: health option))) = Inl (HttpError 503)
   \<and> healthCheck True (FetchResponse 503 None)
       = (500, Inr \<lparr>status = ''connected'', service = ''audio-backend''\<rparr>)
   \<and> healthCheck True FetchRejects
       = (500, Inr \<lparr>status = ''connected'', service = ''audio-backend''\<rparr>)
   \<and> checkBackend (FetchResponse 503 None) = Connected
   \<and> checkBackend FetchRejects = Connected
   \<and> checkBackend (FetchResponse 200 (Some \<lparr>status = ''healthy'', service = ''audio-backend''\<rparr>))
       = Connected"
  using healthCheck_always_resolves [of True "FetchResponse 503 None"]
    healthCheck_always_resolves [of True FetchRejects]
    healthCheck_always_resolves
      [of False "FetchResponse 200 (Some \<lparr>status = ''healthy'', service = ''audio-backend''\<rparr>)"]
  by (simp add: makeRequest_def response_ok_def fabricated_health_def)

end
